theory Spec2Isabelle
  imports Main
begin

section \<open>JavaScript primitives used by the chat broker\<close>

text \<open>
  Strings are lists of code units; the model covers code units below 256 (Latin-1),
  which is what \<^typ>\<open>char\<close> holds. \<open>toLowerCase\<close> maps \<open>A..Z\<close> and the
  Latin-1 capitals (0xC0..0xDE without the multiplication sign 0xD7) 32 places up and
  leaves every other such code unit alone; \<open>trim\<close> removes the white space and line
  terminators of that range (tab, LF, VT, FF, CR, space, NBSP) at both ends.
\<close>

definition isUpper :: "char \<Rightarrow> bool" where
  "isUpper c = (let n = (of_char c :: nat)
                in (65 \<le> n \<and> n \<le> 90) \<or> (192 \<le> n \<and> n \<le> 222 \<and> n \<noteq> 215))"

definition lowerChar :: "char \<Rightarrow> char" where
  "lowerChar c = (if isUpper c then char_of ((of_char c :: nat) + 32) else c)"

definition toLowerCase :: "string \<Rightarrow> string" where
  "toLowerCase s = map lowerChar s"

definition isWhiteSpace :: "char \<Rightarrow> bool" where
  "isWhiteSpace c = ((of_char c :: nat) \<in> {9, 10, 11, 12, 13, 32, 160})"

definition trim :: "string \<Rightarrow> string" where
  "trim s = rev (dropWhile isWhiteSpace (rev (dropWhile isWhiteSpace s)))"

text \<open>
  \<open>Array.prototype.slice(start)\<close> with one argument: a negative start counts from the
  end and is clamped at 0, a positive one is clamped at the length. \<open>-0\<close> is \<open>0\<close>.
\<close>

definition slice :: "int \<Rightarrow> 'a list \<Rightarrow> 'a list" where
  "slice start xs =
     (let len = int (length xs);
          k = (if start < 0 then max (len + start) 0 else min start len)
      in drop (nat k) xs)"

text \<open>
  A \<open>Map\<close> keeps its entries in insertion order: \<open>set\<close> on a key that is present
  replaces the value in place, on a new key it appends; \<open>values()\<close> iterates in
  that order.
\<close>

fun Map_get :: "('k \<times> 'v) list \<Rightarrow> 'k \<Rightarrow> 'v option" where
  "Map_get [] k = None"
| "Map_get ((k', v) # m) k = (if k' = k then Some v else Map_get m k)"

fun Map_set :: "'k \<Rightarrow> 'v \<Rightarrow> ('k \<times> 'v) list \<Rightarrow> ('k \<times> 'v) list" where
  "Map_set k v [] = [(k, v)]"
| "Map_set k v ((k', v') # m) = (if k' = k then (k, v) # m else (k', v') # Map_set k v m)"

definition Map_delete :: "'k \<Rightarrow> ('k \<times> 'v) list \<Rightarrow> ('k \<times> 'v) list" where
  "Map_delete k m = filter (\<lambda>e. fst e \<noteq> k) m"

definition Map_values :: "('k \<times> 'v) list \<Rightarrow> 'v list" where
  "Map_values m = map snd m"

text \<open>Truthiness of a value that is a string or \<open>undefined\<close>/\<open>null\<close>.\<close>

fun truthy :: "string option \<Rightarrow> bool" where
  "truthy None = False"
| "truthy (Some s) = (s \<noteq> [])"

section \<open>Data of the broker\<close>

text \<open>The objects stored in \<open>users\<close> by \<open>rmi_middleware.js\<close>.\<close>

record user =
  u_userId :: string
  u_username :: string
  u_lastActive :: string

text \<open>
  A message object as the server builds it. The three last fields are the optional ones:
  a key that the object does not have is \<open>None\<close>.
\<close>

record message =
  userId :: string
  username :: string
  content :: string
  timestamp :: string
  type :: string
  targetUserId :: "string option"
  targetUsername :: "string option"
  clientId :: "string option"

section \<open>Message history (rmi\_middleware.js)\<close>

definition MAX_HISTORY :: nat where
  "MAX_HISTORY = 100"

text \<open>\<open>saveMessage\<close>: push, then shift once when the length exceeds \<open>MAX_HISTORY\<close>.\<close>

definition saveMessage :: "message \<Rightarrow> message list \<Rightarrow> message list" where
  "saveMessage m h = (let h' = h @ [m] in if length h' > MAX_HISTORY then tl h' else h')"

text \<open>\<open>getMessageHistory(limit)\<close>: \<open>slice(-Math.min(limit, length))\<close>.\<close>

definition getMessageHistory :: "int \<Rightarrow> message list \<Rightarrow> message list" where
  "getMessageHistory limit h = (let count = min limit (int (length h)) in slice (- count) h)"

text \<open>Appending a sequence of messages, one \<open>saveMessage\<close> call each.\<close>

definition saveAll :: "message list \<Rightarrow> message list \<Rightarrow> message list" where
  "saveAll h ms = foldl (\<lambda>h m. saveMessage m h) h ms"

section \<open>Wire codec (rmi\_middleware.js)\<close>

text \<open>
  The object decoded from an inbound document. A field that the document does not carry
  is \<open>undefined\<close>, here \<open>None\<close>.
\<close>

record frame =
  f_userId :: "string option"
  f_username :: "string option"
  f_content :: "string option"
  f_type :: "string option"
  f_targetUserId :: "string option"

text \<open>
  The renderer and the parser belong to the xml2js library, which is not part of the
  repository; both are parameters of the model.
  \<^item> \<open>parseString\<close> answers with the text of the parser's error, with \<open>null\<close> (the
    result for an empty document), or with the name of the root element and the object
    below it.
  \<^item> \<open>buildError\<close> tells whether \<open>builder.buildObject\<close> throws for a message object,
    and with which text. A text that is rendered is kept as the document it stands for:
    the name of the root element and the object below it.
  \<^item> \<open>OPEN\<close> tells which sockets are in the open state.
\<close>

datatype xml = Xml string message

fun xmlBody :: "xml \<Rightarrow> message" where
  "xmlBody (Xml root m) = m"

type_synonym ws = nat

record env =
  parseString :: "string \<Rightarrow> string + (string \<times> frame) option"
  buildError :: "message \<Rightarrow> string option"
  OPEN :: "ws \<Rightarrow> bool"

text \<open>\<open>messageToXml\<close>: the document, or the exception of the renderer.\<close>

definition messageToXml :: "env \<Rightarrow> message \<Rightarrow> string + xml" where
  "messageToXml E message =
     (case buildError E message of
        Some e \<Rightarrow> Inl e
      | None \<Rightarrow> Inr (Xml ''message'' message))"

definition a_acute :: char where "a_acute = CHR 0xE1"
definition i_acute :: char where "i_acute = CHR 0xED"
definition o_acute :: char where "o_acute = CHR 0xF3"

definition invalidXml :: string where
  "invalidXml = ''XML inv'' @ [a_acute] @ ''lido: ''"

definition nullMessageTypeError :: string where
  "nullMessageTypeError = ''Cannot read properties of null (reading 'message')''"

text \<open>
  \<open>xmlToMessage\<close>: every exception inside the \<open>try\<close> block, the parser's failure
  as well as the read of \<open>result.message\<close> on a \<open>null\<close> result, is rethrown with a
  prefix; on success the result's \<open>message\<close> property is returned, which is
  \<open>undefined\<close> when the root element has another name.
\<close>

definition xmlToMessage :: "env \<Rightarrow> string \<Rightarrow> string + frame option" where
  "xmlToMessage E xmlMessage =
     (case parseString E xmlMessage of
        Inl e \<Rightarrow> Inl (invalidXml @ e)
      | Inr None \<Rightarrow> Inl (invalidXml @ nullMessageTypeError)
      | Inr (Some (root, f)) \<Rightarrow> Inr (if root = ''message'' then Some f else None))"

definition createSystemMessage :: "string \<Rightarrow> string \<Rightarrow> string \<Rightarrow> message" where
  "createSystemMessage now content' type' =
     \<lparr>userId = ''system'', username = ''Sistema'', content = content', timestamp = now,
      type = type', targetUserId = None, targetUsername = None, clientId = None\<rparr>"

section \<open>Shared state and delivery (socket\_handler.js)\<close>

text \<open>
  The module-level stores of the two server files, the log of every \<open>ws.send\<close> call in
  the order the calls are made, and the log of the promises that are rejected with
  nothing to handle the rejection (an asynchronous listener that throws, a call that is
  not awaited). What the runtime then does with the process is outside the model.
  \<open>ws.send\<close> itself is taken not to throw.

  A function that can throw returns the state it has reached together with the
  exception's text (\<open>Inl\<close>) or its result (\<open>Inr\<close>): what was stored or sent before the
  exception stays.
\<close>

record server =
  users :: "(string \<times> user) list"
  messageHistory :: "message list"
  activeConnections :: "(string \<times> ws) list"
  outbox :: "(ws \<times> xml) list"
  unhandled :: "string list"

definition send :: "ws \<Rightarrow> xml \<Rightarrow> server \<Rightarrow> server" where
  "send w x st = st\<lparr>outbox := outbox st @ [(w, x)]\<rparr>"

definition reject :: "string \<Rightarrow> server \<Rightarrow> server" where
  "reject e st = st\<lparr>unhandled := unhandled st @ [e]\<rparr>"

text \<open>
  Sequencing: when the first step throws, the function ends there with the state
  reached; otherwise the rest runs from the state reached, with the step's result.
\<close>

definition andThen ::
  "server \<times> (string + 'a) \<Rightarrow> (server \<Rightarrow> 'a \<Rightarrow> server \<times> (string + 'b))
     \<Rightarrow> server \<times> (string + 'b)" where
  "andThen r f = (case snd r of Inl e \<Rightarrow> (fst r, Inl e) | Inr v \<Rightarrow> f (fst r) v)"

definition broadcastMessage :: "env \<Rightarrow> xml \<Rightarrow> server \<Rightarrow> server" where
  "broadcastMessage E xmlMessage st =
     st\<lparr>outbox := outbox st @
           map (\<lambda>w. (w, xmlMessage)) (filter (OPEN E) (Map_values (activeConnections st)))\<rparr>"

text \<open>\<open>activeConnections.get(k)\<close>, where \<open>k\<close> may be \<open>undefined\<close>.\<close>

fun getConnection :: "(string \<times> ws) list \<Rightarrow> string option \<Rightarrow> ws option" where
  "getConnection m None = None"
| "getConnection m (Some k) = Map_get m k"

definition sendPrivateMessage ::
  "env \<Rightarrow> xml \<Rightarrow> string option \<Rightarrow> string \<Rightarrow> server \<Rightarrow> server" where
  "sendPrivateMessage E xmlMessage targetUserId' senderUserId st =
     (let st1 = (case getConnection (activeConnections st) targetUserId' of
                   Some targetWs \<Rightarrow> if OPEN E targetWs then send targetWs xmlMessage st else st
                 | None \<Rightarrow> st);
          st2 = (case getConnection (activeConnections st1) (Some senderUserId) of
                   Some senderWs \<Rightarrow>
                     if OPEN E senderWs \<and> Some senderUserId \<noteq> targetUserId'
                     then send senderWs xmlMessage st1 else st1
                 | None \<Rightarrow> st1)
      in st2)"

text \<open>
  The listener that \<open>subscribeToEvents\<close> installs on \<open>chatEvents\<close>, and
  \<open>notifyAll\<close>, which emits the event: the listener runs synchronously inside
  \<open>emit\<close>, and an exception of the renderer, thrown before anything is sent, reaches
  the caller of \<open>notifyAll\<close>.
\<close>

definition onChatEvent :: "env \<Rightarrow> message \<Rightarrow> server \<Rightarrow> server \<times> (string + unit)" where
  "onChatEvent E message st =
     (case messageToXml E message of
        Inl e \<Rightarrow> (st, Inl e)
      | Inr xmlMessage \<Rightarrow>
          if type message = ''PRIVATE''
          then (sendPrivateMessage E xmlMessage (targetUserId message) (userId message) st,
                Inr ())
          else (broadcastMessage E xmlMessage st, Inr ()))"

definition notifyAll :: "env \<Rightarrow> message \<Rightarrow> server \<Rightarrow> server \<times> (string + unit)" where
  "notifyAll E message st = onChatEvent E message st"

section \<open>Operations of rmi\_middleware.js\<close>

definition emptyNameError :: string where
  "emptyNameError = ''El nombre de usuario no puede estar vac'' @ [i_acute] @ ''o''"

definition nameConflictError :: string where
  "nameConflictError = ''El nombre de usuario ya est'' @ [a_acute] @ '' en uso''"

text \<open>
  \<open>registerUser(username)\<close>. \<open>now\<close> is the clock's reading and \<open>uuid\<close> the value
  that \<open>uuidv4()\<close> returns in this call. The result is the \<open>userId\<close> of the response
  object. The user and the join notice are stored before \<open>notifyAll\<close> runs, so they
  stay when the notice cannot be rendered.
\<close>

definition registerUser ::
  "env \<Rightarrow> string \<Rightarrow> string \<Rightarrow> string option \<Rightarrow> server \<Rightarrow> server \<times> (string + string)" where
  "registerUser E now uuid username' st =
     (case username' of
        None \<Rightarrow> (st, Inl emptyNameError)
      | Some name \<Rightarrow>
          if name = [] \<or> trim name = [] then (st, Inl emptyNameError)
          else if list_ex (\<lambda>u. toLowerCase (u_username u) = toLowerCase name)
                          (Map_values (users st))
          then (st, Inl nameConflictError)
          else
            let u = \<lparr>u_userId = uuid, u_username = name, u_lastActive = now\<rparr>;
                st1 = st\<lparr>users := Map_set uuid u (users st)\<rparr>;
                joinMessage = createSystemMessage now (name @ '' se ha unido al chat'') ''JOIN'';
                st2 = st1\<lparr>messageHistory := saveMessage joinMessage (messageHistory st1)\<rparr>
            in andThen (notifyAll E joinMessage st2) (\<lambda>st3 _. (st3, Inr uuid)))"

definition getUsers :: "server \<Rightarrow> user list" where
  "getUsers st = Map_values (users st)"

text \<open>\<open>sendMessage(messageData)\<close>; the argument object carries \<open>userId\<close> and \<open>content\<close>.\<close>

definition sendMessage :: "env \<Rightarrow> string \<Rightarrow> frame \<Rightarrow> server \<Rightarrow> server \<times> (string + unit)" where
  "sendMessage E now messageData st =
     (if \<not> truthy (f_userId messageData) \<or> \<not> truthy (f_content messageData)
      then (st, Inl ''Datos de mensaje incompletos'')
      else case (f_userId messageData, f_content messageData) of
        (Some uid, Some c) \<Rightarrow>
          (case Map_get (users st) uid of
             None \<Rightarrow> (st, Inl ''Usuario no encontrado'')
           | Some u \<Rightarrow>
               let st1 = st\<lparr>users := Map_set uid (u\<lparr>u_lastActive := now\<rparr>) (users st)\<rparr>;
                   message = \<lparr>userId = uid, username = u_username u, content = c,
                              timestamp = now, type = ''CHAT'', targetUserId = None,
                              targetUsername = None, clientId = None\<rparr>;
                   st2 = st1\<lparr>messageHistory := saveMessage message (messageHistory st1)\<rparr>
               in notifyAll E message st2)
      | _ \<Rightarrow> (st, Inl ''Datos de mensaje incompletos''))"

text \<open>
  \<open>sendPrivateMessage(messageData)\<close> of the middleware (the socket handler has a
  function of the same name, modelled above).
\<close>

definition rmi_sendPrivateMessage ::
  "env \<Rightarrow> string \<Rightarrow> frame \<Rightarrow> server \<Rightarrow> server \<times> (string + unit)" where
  "rmi_sendPrivateMessage E now messageData st =
     (if \<not> truthy (f_userId messageData) \<or> \<not> truthy (f_targetUserId messageData)
         \<or> \<not> truthy (f_content messageData)
      then (st, Inl ''Datos de mensaje privado incompletos'')
      else case (f_userId messageData, f_targetUserId messageData, f_content messageData) of
        (Some uid, Some tid, Some c) \<Rightarrow>
          (case Map_get (users st) uid of
             None \<Rightarrow> (st, Inl ''Usuario remitente no encontrado'')
           | Some sender \<Rightarrow>
              (case Map_get (users st) tid of
                 None \<Rightarrow> (st, Inl ''Usuario destinatario no encontrado'')
               | Some target \<Rightarrow>
                   let st1 = st\<lparr>users := Map_set uid (sender\<lparr>u_lastActive := now\<rparr>) (users st)\<rparr>;
                       message = \<lparr>userId = uid, username = u_username sender, content = c,
                                  timestamp = now, type = ''PRIVATE'', targetUserId = Some tid,
                                  targetUsername = Some (u_username target), clientId = None\<rparr>;
                       st2 = st1\<lparr>messageHistory := saveMessage message (messageHistory st1)\<rparr>
                   in notifyAll E message st2))
      | _ \<Rightarrow> (st, Inl ''Datos de mensaje privado incompletos''))"

definition disconnectUser ::
  "env \<Rightarrow> string \<Rightarrow> string \<Rightarrow> server \<Rightarrow> server \<times> (string + bool)" where
  "disconnectUser E now uid st =
     (case Map_get (users st) uid of
        None \<Rightarrow> (st, Inr False)
      | Some u \<Rightarrow>
          let st1 = st\<lparr>users := Map_delete uid (users st)\<rparr>;
              leaveMessage = createSystemMessage now
                               (u_username u @ '' ha abandonado el chat'') ''LEAVE'';
              st2 = st1\<lparr>messageHistory := saveMessage leaveMessage (messageHistory st1)\<rparr>
          in andThen (notifyAll E leaveMessage st2) (\<lambda>st3 _. (st3, Inr True)))"

text \<open>
  The registration route of \<open>server_file.js\<close>, as far as the shared state goes: a
  missing name is answered at once, and an exception of \<open>registerUser\<close> is caught and
  answered with status 500.
\<close>

definition httpRegister :: "env \<Rightarrow> string \<Rightarrow> string \<Rightarrow> string option \<Rightarrow> server \<Rightarrow> server" where
  "httpRegister E now uuid username' st =
     (if \<not> truthy username' then st else fst (registerUser E now uuid username' st))"

section \<open>Roster push and join handshake (socket\_handler.js)\<close>

text \<open>
  \<open>JSON.stringify\<close> on the array that \<open>getUsers\<close> returns: each user object has the
  keys \<open>userId\<close>, \<open>username\<close> and \<open>lastActive\<close> (a date, rendered as its ISO
  text). A string is quoted with the escapes of JSON.
\<close>

definition dquote :: char where "dquote = CHR 0x22"
definition backslash :: char where "backslash = CHR 0x5C"

definition hexDigit :: "nat \<Rightarrow> char" where
  "hexDigit n = (''0123456789abcdef'' ! (n mod 16))"

definition jsonEscape :: "char \<Rightarrow> string" where
  "jsonEscape c =
     (let n = (of_char c :: nat)
      in if c = dquote then [backslash, dquote]
         else if c = backslash then [backslash, backslash]
         else if n = 8 then [backslash, CHR ''b'']
         else if n = 9 then [backslash, CHR ''t'']
         else if n = 10 then [backslash, CHR ''n'']
         else if n = 12 then [backslash, CHR ''f'']
         else if n = 13 then [backslash, CHR ''r'']
         else if n < 32 then [backslash, CHR ''u'', CHR ''0'', CHR ''0'',
                              hexDigit (n div 16), hexDigit n]
         else [c])"

definition jsonQuote :: "string \<Rightarrow> string" where
  "jsonQuote s = [dquote] @ concat (map jsonEscape s) @ [dquote]"

definition jsonUser :: "user \<Rightarrow> string" where
  "jsonUser u =
     ''{'' @ jsonQuote ''userId'' @ '':'' @ jsonQuote (u_userId u) @ '','' @
     jsonQuote ''username'' @ '':'' @ jsonQuote (u_username u) @ '','' @
     jsonQuote ''lastActive'' @ '':'' @ jsonQuote (u_lastActive u) @ ''}''"

fun joinWith :: "string \<Rightarrow> string list \<Rightarrow> string" where
  "joinWith sep [] = []"
| "joinWith sep [x] = x"
| "joinWith sep (x # y # xs) = x @ sep @ joinWith sep (y # xs)"

definition JSON_stringify :: "user list \<Rightarrow> string" where
  "JSON_stringify us = ''['' @ joinWith '','' (map jsonUser us) @ '']''"

definition userListMessage :: "string \<Rightarrow> user list \<Rightarrow> message" where
  "userListMessage now us =
     \<lparr>userId = ''system'', username = ''Sistema'', content = JSON_stringify us,
      timestamp = now, type = ''USER_LIST'', targetUserId = None, targetUsername = None,
      clientId = None\<rparr>"

text \<open>
  \<open>sendUserListUpdate\<close> is asynchronous and \<open>handleJoin\<close> calls it without
  \<open>await\<close>: when the roster cannot be rendered, its promise is rejected and nobody
  handles the rejection.
\<close>

definition sendUserListUpdate :: "env \<Rightarrow> string \<Rightarrow> server \<Rightarrow> server" where
  "sendUserListUpdate E now st =
     (case messageToXml E (userListMessage now (getUsers st)) of
        Inl e \<Rightarrow> reject e st
      | Inr xmlMessage \<Rightarrow> broadcastMessage E xmlMessage st)"

text \<open>
  The replay loop of \<open>handleJoin\<close>: \<open>getMessageHistory()\<close> is called without an
  argument, so its parameter takes the default 20; a message is skipped when it is
  private and the joining user is neither its target nor its sender. Each other message
  is rendered and sent; the loop has no \<open>try\<close>, so it ends at the first message that
  cannot be rendered.
\<close>

definition skipInReplay :: "string \<Rightarrow> message \<Rightarrow> bool" where
  "skipInReplay uid msg =
     (type msg = ''PRIVATE'' \<and> targetUserId msg \<noteq> Some uid \<and> userId msg \<noteq> uid)"

fun replayLoop ::
  "env \<Rightarrow> ws \<Rightarrow> string \<Rightarrow> message list \<Rightarrow> server \<Rightarrow> server \<times> (string + unit)" where
  "replayLoop E w uid [] st = (st, Inr ())"
| "replayLoop E w uid (msg # history) st =
     (if skipInReplay uid msg then replayLoop E w uid history st
      else case messageToXml E msg of
             Inl e \<Rightarrow> (st, Inl e)
           | Inr x \<Rightarrow> replayLoop E w uid history (send w x st))"

definition nameTakenResponse :: "string \<Rightarrow> message" where
  "nameTakenResponse now =
     \<lparr>userId = ''system'', username = ''Sistema'',
      content = ''Error: '' @ nameConflictError,
      timestamp = now, type = ''ERROR'', targetUserId = None, targetUsername = None,
      clientId = None\<rparr>"

definition joinResponse :: "string \<Rightarrow> string \<Rightarrow> message" where
  "joinResponse now uid =
     \<lparr>userId = ''system'', username = ''Sistema'',
      content = ''Conexi'' @ [o_acute] @ ''n establecida'',
      timestamp = now, type = ''JOIN'', targetUserId = None, targetUsername = None,
      clientId = Some uid\<rparr>"

text \<open>
  The part of \<open>handleJoin\<close> after the identity is settled: bind the socket, confirm,
  replay the history, push the roster. The binding is made first and stays whatever
  happens afterwards.
\<close>

definition completeJoin ::
  "env \<Rightarrow> string \<Rightarrow> ws \<Rightarrow> string \<Rightarrow> server \<Rightarrow> server \<times> (string + unit)" where
  "completeJoin E now w uid st =
     (let st1 = st\<lparr>activeConnections := Map_set uid w (activeConnections st)\<rparr>
      in case messageToXml E (joinResponse now uid) of
           Inl e \<Rightarrow> (st1, Inl e)
         | Inr joinXml \<Rightarrow>
             (let st2 = send w joinXml st1
              in andThen (replayLoop E w uid (getMessageHistory 20 (messageHistory st2)) st2)
                   (\<lambda>st3 _. (sendUserListUpdate E now st3, Inr ()))))"

definition toLowerCaseTypeError :: string where
  "toLowerCaseTypeError = ''Cannot read properties of undefined (reading 'toLowerCase')''"

text \<open>
  \<open>handleJoin(ws, message)\<close>. The result is the value of \<open>message.userId\<close> when
  the function returns, which the caller then stores as the connection's user id.
\<close>

definition handleJoin ::
  "env \<Rightarrow> string \<Rightarrow> string \<Rightarrow> ws \<Rightarrow> frame \<Rightarrow> server \<Rightarrow> server \<times> (string + string option)" where
  "handleJoin E now uuid w message st =
     (let registerAndJoin = (\<lambda>name.
            andThen (registerUser E now uuid name st) (\<lambda>st1 newId.
              andThen (completeJoin E now w newId st1) (\<lambda>st2 _. (st2, Inr (Some newId)))))
      in
      if truthy (f_userId message) \<and> f_userId message \<noteq> Some ''system''
      then
        (case f_userId message of
           None \<Rightarrow> (st, Inl [])
         | Some uid \<Rightarrow>
             if list_ex (\<lambda>u. u_userId u = uid) (getUsers st)
             then andThen (completeJoin E now w uid st) (\<lambda>st2 _. (st2, Inr (Some uid)))
             else registerAndJoin (f_username message))
      else
        (case f_username message of
           None \<Rightarrow>
             if getUsers st \<noteq> [] then (st, Inl toLowerCaseTypeError)
             else registerAndJoin None
         | Some name \<Rightarrow>
             if list_ex (\<lambda>u. toLowerCase (u_username u) = toLowerCase name) (getUsers st)
             then (case messageToXml E (nameTakenResponse now) of
                     Inl e \<Rightarrow> (st, Inl e)
                   | Inr errorResponse \<Rightarrow> (send w errorResponse st, Inr (f_userId message)))
             else registerAndJoin (Some name)))"

section \<open>Per-connection handlers (handleConnection)\<close>

definition typeTypeError :: string where
  "typeTypeError = ''Cannot read properties of undefined (reading 'type')''"

text \<open>The object that the \<open>catch\<close> block of the message listener renders.\<close>

definition errorReply :: "string \<Rightarrow> string \<Rightarrow> message" where
  "errorReply now e =
     \<lparr>userId = ''system'', username = ''Sistema'', content = ''Error: '' @ e,
      timestamp = now, type = ''CHAT'', targetUserId = None, targetUsername = None,
      clientId = None\<rparr>"

definition chatData :: "frame \<Rightarrow> frame" where
  "chatData message =
     \<lparr>f_userId = f_userId message, f_username = None, f_content = f_content message,
      f_type = None, f_targetUserId = None\<rparr>"

definition privateData :: "frame \<Rightarrow> frame" where
  "privateData message =
     \<lparr>f_userId = f_userId message, f_username = None, f_content = f_content message,
      f_type = None, f_targetUserId = f_targetUserId message\<rparr>"

text \<open>
  The body of the \<open>try\<close> block once the frame is decoded: the \<open>switch\<close> on
  \<open>message.type\<close>. The second component of the argument is the connection's local
  \<open>userId\<close>; the result is its value after the \<open>switch\<close>. When \<open>handleJoin\<close> or
  \<open>disconnectUser\<close> throws, the statements after the call do not run.
\<close>

definition dispatch ::
  "env \<Rightarrow> string \<Rightarrow> string \<Rightarrow> ws \<Rightarrow> frame \<Rightarrow> server \<times> string option
     \<Rightarrow> server \<times> (string + string option)" where
  "dispatch E now uuid w message c =
     (let st = fst c; connUserId = snd c
      in if f_type message = Some ''JOIN'' then handleJoin E now uuid w message st
         else if f_type message = Some ''CHAT'' then
           andThen (sendMessage E now (chatData message) st) (\<lambda>st1 _. (st1, Inr connUserId))
         else if f_type message = Some ''PRIVATE'' then
           andThen (rmi_sendPrivateMessage E now (privateData message) st)
             (\<lambda>st1 _. (st1, Inr connUserId))
         else if f_type message = Some ''LOGOUT'' then
           (case connUserId of
              Some uid \<Rightarrow>
                if uid \<noteq> [] then
                  andThen (disconnectUser E now uid st) (\<lambda>st1 _.
                    (st1\<lparr>activeConnections := Map_delete uid (activeConnections st1)\<rparr>,
                     Inr None))
                else (st, Inr connUserId)
            | None \<Rightarrow> (st, Inr connUserId))
         else (st, Inr connUserId))"

text \<open>
  The \<open>catch\<close> block: the reply is rendered and sent to the socket. The block has no
  guard of its own: when the reply cannot be rendered, nothing is sent and the
  listener's promise is rejected.
\<close>

definition caught :: "env \<Rightarrow> string \<Rightarrow> ws \<Rightarrow> string \<Rightarrow> server \<Rightarrow> server" where
  "caught E now w e st =
     (case messageToXml E (errorReply now e) of
        Inl e' \<Rightarrow> reject e' st
      | Inr x \<Rightarrow> send w x st)"

text \<open>
  The \<open>message\<close> listener of a connection: decode, dispatch, catch. The listener is
  modelled as running from its start to its end on the state it finds. The operations
  of the middleware contain no \<open>await\<close> and run in one piece; the listener and
  \<open>handleJoin\<close> wait at theirs, where another listener may run in between, which this
  function does not describe.
\<close>

definition onMessage ::
  "env \<Rightarrow> string \<Rightarrow> string \<Rightarrow> ws \<Rightarrow> string \<Rightarrow> server \<times> string option
     \<Rightarrow> server \<times> string option" where
  "onMessage E now uuid w data' c =
     (case xmlToMessage E data' of
        Inl e \<Rightarrow> (caught E now w e (fst c), snd c)
      | Inr None \<Rightarrow> (caught E now w typeTypeError (fst c), snd c)
      | Inr (Some message) \<Rightarrow>
          (let r = dispatch E now uuid w message c
           in case snd r of
                Inl e \<Rightarrow> (caught E now w e (fst r), snd c)
              | Inr connUserId \<Rightarrow> (fst r, connUserId)))"

text \<open>
  The \<open>close\<close> listener of a connection; it has no \<open>try\<close>, so an exception of
  \<open>disconnectUser\<close> rejects its promise.
\<close>

definition onClose :: "env \<Rightarrow> string \<Rightarrow> server \<times> string option \<Rightarrow> server \<times> string option" where
  "onClose E now c =
     (case snd c of
        Some uid \<Rightarrow>
          if uid \<noteq> [] then
            (let st1 = (fst c)\<lparr>activeConnections := Map_delete uid (activeConnections (fst c))\<rparr>;
                 r = disconnectUser E now uid st1
             in case snd r of
                  Inl e \<Rightarrow> (reject e (fst r), snd c)
                | Inr _ \<Rightarrow> (fst r, snd c))
          else c
      | None \<Rightarrow> c)"


section \<open>The user model (models/user.js)\<close>

record User =
  User_userId :: string
  User_username :: string
  User_connected :: bool
  User_lastActive :: string
  User_joinedAt :: string

definition isUsernameTaken :: "(string \<times> User) list \<Rightarrow> string \<Rightarrow> bool" where
  "isUsernameTaken activeUsers username' =
     (let normalizedUsername = toLowerCase (trim username')
      in list_ex (\<lambda>u. toLowerCase (User_username u) = normalizedUsername)
                 (Map_values activeUsers))"

definition nameInUseError :: string where
  "nameInUseError = ''Este nombre de usuario ya est'' @ [a_acute] @ '' en uso''"

text \<open>
  \<open>createUser(username, userId = null)\<close>: the constructor takes the given id when
  it is truthy and the value of \<open>uuidv4()\<close> otherwise.
\<close>

definition createUser ::
  "string \<Rightarrow> string \<Rightarrow> string \<Rightarrow> string option \<Rightarrow> (string \<times> User) list
     \<Rightarrow> string + ((string \<times> User) list \<times> User)" where
  "createUser now uuid username' userId' activeUsers =
     (let sanitizedUsername = trim username'
      in if sanitizedUsername = [] then Inl emptyNameError
         else if isUsernameTaken activeUsers sanitizedUsername then Inl nameInUseError
         else
           let u = \<lparr>User_userId = (case userId' of
                                      Some i \<Rightarrow> if i \<noteq> [] then i else uuid
                                    | None \<Rightarrow> uuid),
                    User_username = sanitizedUsername, User_connected = True,
                    User_lastActive = now, User_joinedAt = now\<rparr>
           in Inr (Map_set (User_userId u) u activeUsers, u))"

section \<open>Concrete environments and states\<close>

text \<open>
  The renderer as the xmlbuilder package behind xml2js behaves on the objects of this
  server: each value is escaped and then checked, in the order of the object's keys,
  and the first value with a character that XML 1.0 forbids (U+0000 to U+0008, U+000B,
  U+000C, U+000E to U+001F among the code units below 256) makes it throw. The objects
  built by the server have their keys in the order \<open>userId\<close>, \<open>username\<close>,
  then \<open>targetUserId\<close> and \<open>targetUsername\<close> if present, \<open>content\<close>,
  \<open>timestamp\<close>, \<open>type\<close>, and \<open>clientId\<close> if present.
\<close>

definition xmlLegalChar :: "char \<Rightarrow> bool" where
  "xmlLegalChar c =
     (let n = (of_char c :: nat)
      in \<not> (n \<le> 8 \<or> n = 11 \<or> n = 12 \<or> (14 \<le> n \<and> n \<le> 31)))"

definition xmlLegal :: "string \<Rightarrow> bool" where
  "xmlLegal s = list_all xmlLegalChar s"

definition textEscapeChar :: "char \<Rightarrow> string" where
  "textEscapeChar c =
     (if c = CHR ''&'' then ''&amp;''
      else if c = CHR ''<'' then ''&lt;''
      else if c = CHR ''>'' then ''&gt;''
      else if c = CHR 0x0D then ''&#xD;''
      else [c])"

definition textEscape :: "string \<Rightarrow> string" where
  "textEscape s = concat (map textEscapeChar s)"

fun showNat :: "nat \<Rightarrow> string" where
  "showNat n =
     (if n < 10 then [''0123456789'' ! n]
      else showNat (n div 10) @ [''0123456789'' ! (n mod 10)])"

definition invalidCharacterError :: "string \<Rightarrow> string" where
  "invalidCharacterError s =
     ''Invalid character in string: '' @ s @ '' at index ''
       @ showNat (length (takeWhile xmlLegalChar s))"

definition fieldValues :: "message \<Rightarrow> string list" where
  "fieldValues m =
     [userId m, username m]
     @ (case targetUserId m of Some t \<Rightarrow> [t] | None \<Rightarrow> [])
     @ (case targetUsername m of Some t \<Rightarrow> [t] | None \<Rightarrow> [])
     @ [content m, timestamp m, type m]
     @ (case clientId m of Some c \<Rightarrow> [c] | None \<Rightarrow> [])"

definition xmlbuilderError :: "message \<Rightarrow> string option" where
  "xmlbuilderError m =
     (case find (\<lambda>s. \<not> xmlLegal s) (map textEscape (fieldValues m)) of
        None \<Rightarrow> None
      | Some s \<Rightarrow> Some (invalidCharacterError s))"

text \<open>
  An environment in which every socket is open, the renderer is the one above and the
  parser knows a few documents; an empty text gives \<open>null\<close>, and every other text is
  taken to start with a character that may not stand before the root element, which
  the parser's error text quotes.
\<close>

definition joinFrame :: "string option \<Rightarrow> string \<Rightarrow> frame" where
  "joinFrame uid name =
     \<lparr>f_userId = uid, f_username = Some name, f_content = Some ''Solicitando ingreso al chat'',
      f_type = Some ''JOIN'', f_targetUserId = None\<rparr>"

definition chatFrame :: "string \<Rightarrow> string \<Rightarrow> string \<Rightarrow> frame" where
  "chatFrame uid name c =
     \<lparr>f_userId = Some uid, f_username = Some name, f_content = Some c,
      f_type = Some ''CHAT'', f_targetUserId = None\<rparr>"

definition logoutFrame :: "string \<Rightarrow> frame" where
  "logoutFrame uid =
     \<lparr>f_userId = Some uid, f_username = None, f_content = None,
      f_type = Some ''LOGOUT'', f_targetUserId = None\<rparr>"

definition saxError :: "char \<Rightarrow> string" where
  "saxError c =
     ''Non-whitespace before first tag.'' @ [CHR 0x0A] @ ''Line: 0'' @ [CHR 0x0A]
       @ ''Column: 1'' @ [CHR 0x0A] @ ''Char: '' @ [c]"

definition badContent :: string where
  "badContent = ''a'' @ [CHR 0x0B] @ ''b''"


definition parse0 :: "string \<Rightarrow> string + (string \<times> frame) option" where
  "parse0 d =
     (if d = ''join-alice'' then Inr (Some (''message'', joinFrame (Some []) ''Alice''))
      else if d = ''join-bob'' then Inr (Some (''message'', joinFrame (Some []) ''Bob''))
      else if d = ''rejoin-alice''
        then Inr (Some (''message'', joinFrame (Some ''id-a'') ''Alice''))
      else if d = ''chat-alice''
        then Inr (Some (''message'', chatFrame ''id-a'' ''Mallory'' ''hi''))
      else if d = ''chat-bad''
        then Inr (Some (''message'', chatFrame ''id-a'' ''Alice'' badContent))
      else if d = ''logout-alice'' then Inr (Some (''message'', logoutFrame ''id-a''))
      else if d = ''user-list'' then Inr (Some (''userList'', logoutFrame []))
      else case d of [] \<Rightarrow> Inr None | c # _ \<Rightarrow> Inl (saxError c))"

definition env0 :: env where
  "env0 = \<lparr>parseString = parse0, buildError = xmlbuilderError, OPEN = (\<lambda>w. True)\<rparr>"

definition st0 :: server where
  "st0 = \<lparr>users = [], messageHistory = [], activeConnections = [], outbox = [],
          unhandled = []\<rparr>"

text \<open>The deliveries that a step adds to the log.\<close>

definition newSends :: "server \<Rightarrow> server \<Rightarrow> (ws \<times> xml) list" where
  "newSends st st' = drop (length (outbox st)) (outbox st')"

definition chatMsg :: "nat \<Rightarrow> message" where
  "chatMsg n =
     \<lparr>userId = ''id-a'', username = ''Alice'', content = replicate n (CHR ''x''),
      timestamp = ''t'', type = ''CHAT'', targetUserId = None, targetUsername = None,
      clientId = None\<rparr>"

definition privateMsg :: "string \<Rightarrow> string \<Rightarrow> message" where
  "privateMsg sender target =
     \<lparr>userId = sender, username = sender, content = ''secret'',
      timestamp = ''t'', type = ''PRIVATE'', targetUserId = Some target,
      targetUsername = Some target, clientId = None\<rparr>"

text \<open>
  What the join handshake sends after the confirmation: the history of the window that
  is not skipped, up to the first message that cannot be rendered, to the joining
  socket; and the roster, to every open socket.
\<close>

definition historyReplay :: "string \<Rightarrow> message list \<Rightarrow> message list" where
  "historyReplay uid h = filter (\<lambda>msg. \<not> skipInReplay uid msg) (getMessageHistory 20 h)"

definition replayed :: "env \<Rightarrow> string \<Rightarrow> message list \<Rightarrow> message list" where
  "replayed E uid h = takeWhile (\<lambda>msg. buildError E msg = None) (historyReplay uid h)"

definition replaySends :: "env \<Rightarrow> ws \<Rightarrow> string \<Rightarrow> message list \<Rightarrow> (ws \<times> xml) list" where
  "replaySends E w uid h = map (\<lambda>msg. (w, Xml ''message'' msg)) (replayed E uid h)"

definition rosterSends :: "env \<Rightarrow> string \<Rightarrow> server \<Rightarrow> (ws \<times> xml) list" where
  "rosterSends E now st =
     map (\<lambda>w. (w, Xml ''message'' (userListMessage now (getUsers st))))
         (filter (OPEN E) (Map_values (activeConnections st)))"

text \<open>The receiving socket and the kind of each delivery.\<close>

definition kinds :: "(ws \<times> xml) list \<Rightarrow> (ws \<times> string) list" where
  "kinds sends = map (\<lambda>p. (fst p, type (xmlBody (snd p)))) sends"

text \<open>Alice joins on socket 1, then Bob on socket 2.\<close>

definition aliceJoined :: "server \<times> string option" where
  "aliceJoined = onMessage env0 ''t1'' ''id-a'' 1 ''join-alice'' (st0, None)"

definition bobJoined :: "server \<times> string option" where
  "bobJoined = onMessage env0 ''t2'' ''id-b'' 2 ''join-bob'' (fst aliceJoined, None)"




definition manyMessages :: "message list" where
  "manyMessages = map chatMsg [0..<101]"


definition twoBound :: server where
  "twoBound = st0\<lparr>activeConnections := [(''id-a'', 1), (''id-b'', 2)]\<rparr>"

text \<open>The bound that the history is meant to keep.\<close>

definition historyOk :: "server \<Rightarrow> bool" where
  "historyOk st = (length (messageHistory st) \<le> MAX_HISTORY)"

text \<open>
  The whole server: the shared state and the local \<open>userId\<close> of every connection
  (\<open>null\<close> when the connection is made). An event is a frame arriving on a socket, with
  the clock's reading and the identifier \<open>uuidv4\<close> would return, the closing of a
  socket, or a registration over HTTP; each event comes with the environment at that
  moment. The events are taken one after the other, each handler finishing before the
  next one starts; frames whose handlers overlap at an \<open>await\<close> are not covered by
  this run.
\<close>

datatype event = Message ws string string string | Close ws string | Register string string string

fun step ::
  "env \<times> event \<Rightarrow> server \<times> (ws \<Rightarrow> string option) \<Rightarrow> server \<times> (ws \<Rightarrow> string option)" where
  "step (E, Message w now uuid data') (st, conn) =
     (let c = onMessage E now uuid w data' (st, conn w) in (fst c, conn(w := snd c)))"
| "step (E, Close w now) (st, conn) =
     (let c = onClose E now (st, conn w) in (fst c, conn(w := snd c)))"
| "step (E, Register now uuid name) (st, conn) =
     (httpRegister E now uuid (Some name) st, conn)"

definition run :: "(env \<times> event) list \<Rightarrow> server \<times> (ws \<Rightarrow> string option)" where
  "run evs = foldl (\<lambda>c ev. step ev c) (st0, \<lambda>w. None) evs"

section \<open>Properties of the history\<close>

lemma slice_neg:
  "0 < c \<Longrightarrow> c \<le> int (length xs) \<Longrightarrow> slice (- c) xs = drop (length xs - nat c) xs"
  by (auto simp: slice_def Let_def max_def nat_diff_distrib')

lemma slice_zero: "slice 0 xs = xs"
  by (simp add: slice_def)

lemma saveMessage_drop:
  "length h \<le> MAX_HISTORY \<Longrightarrow>
     saveMessage m h = drop (length (h @ [m]) - MAX_HISTORY) (h @ [m])"
  by (cases h) (auto simp: saveMessage_def Let_def MAX_HISTORY_def drop_Cons')

lemma saveMessage_full:
  "length h = MAX_HISTORY \<Longrightarrow> saveMessage m h = tl h @ [m]"
  by (cases h) (auto simp: saveMessage_def Let_def MAX_HISTORY_def)

lemma length_saveMessage:
  "length h \<le> MAX_HISTORY \<Longrightarrow> length (saveMessage m h) \<le> MAX_HISTORY"
  by (auto simp: saveMessage_def Let_def)


lemma drop_window_snoc:
  "drop (length (drop (length xs - n) xs @ [m]) - n) (drop (length xs - n) xs @ [m])
     = drop (length (xs @ [m]) - n) (xs @ [m])"
proof (cases "length xs \<le> n")
  case True
  then show ?thesis by simp
next
  case False
  then have "length (drop (length xs - n) xs) = n" by simp
  then have "drop (length (drop (length xs - n) xs @ [m]) - n) (drop (length xs - n) xs @ [m])
     = drop 1 (drop (length xs - n) xs @ [m])" by simp
  also have "\<dots> = drop (Suc (length xs - n)) xs @ drop (1 - n) [m]"
    using False by simp
  also have "\<dots> = drop (length (xs @ [m]) - n) (xs @ [m])"
    using False by (simp add: Suc_diff_le)
  finally show ?thesis .
qed

lemma saveAll_drop:
  "length h \<le> MAX_HISTORY \<Longrightarrow>
     saveAll h ms = drop (length (h @ ms) - MAX_HISTORY) (h @ ms)"
proof (induction ms rule: rev_induct)
  case Nil
  then show ?case by (simp add: saveAll_def)
next
  case (snoc m ms)
  let ?h = "saveAll h ms"
  have eq: "?h = drop (length (h @ ms) - MAX_HISTORY) (h @ ms)" using snoc by simp
  then have len: "length ?h \<le> MAX_HISTORY" by simp
  have "saveAll h (ms @ [m]) = saveMessage m ?h" by (simp add: saveAll_def)
  also have "\<dots> = drop (length (?h @ [m]) - MAX_HISTORY) (?h @ [m])"
    using len by (rule saveMessage_drop)
  also have "\<dots> = drop (length ((h @ ms) @ [m]) - MAX_HISTORY) ((h @ ms) @ [m])"
    unfolding eq by (rule drop_window_snoc)
  finally show ?case by simp
qed

lemma getMessageHistory_drop:
  "0 < limit \<Longrightarrow> getMessageHistory limit h = drop (length h - nat limit) h"
  by (cases "h = []") (auto simp: getMessageHistory_def Let_def slice_neg slice_zero min_def)

lemma getMessageHistory_clamp:
  "int (length h) \<le> limit \<Longrightarrow> getMessageHistory limit h = h"
  by (cases "h = []") (auto simp: getMessageHistory_def Let_def slice_neg slice_zero min_def)

lemma getMessageHistory_20: "getMessageHistory 20 h = drop (length h - 20) h"
  using getMessageHistory_drop[of 20 h] by simp

section \<open>Properties of maps and deliveries\<close>

lemma Map_get_set_same: "Map_get (Map_set k v m) k = Some v"
  by (induction m) auto

lemma newSends_append: "outbox st' = outbox st @ xs \<Longrightarrow> newSends st st' = xs"
  by (simp add: newSends_def)

lemma andThen_pair:
  "andThen (s, Inl e) f = (s, Inl e)"
  "andThen (s, Inr v) f = f s v"
  by (simp_all add: andThen_def)

lemma andThen_same_state: "(\<And>s v. fst (f s v) = s) \<Longrightarrow> fst (andThen r f) = fst r"
  by (cases "snd r") (simp_all add: andThen_def)

lemma andThen_Inl: "snd r = Inl e \<Longrightarrow> andThen r f = (fst r, Inl e)"
  by (simp add: andThen_def)

lemma andThen_Inr: "snd r = Inr v \<Longrightarrow> andThen r f = f (fst r) v"
  by (simp add: andThen_def)

lemma messageToXml_cases:
  "buildError E m = None \<Longrightarrow> messageToXml E m = Inr (Xml ''message'' m)"
  "buildError E m = Some e \<Longrightarrow> messageToXml E m = Inl e"
  by (simp_all add: messageToXml_def)

lemma sendPrivateMessage_outbox:
  "sendPrivateMessage E x (Some target) sender st =
     st\<lparr>outbox := outbox st @
        (case Map_get (activeConnections st) target of
           Some tw \<Rightarrow> if OPEN E tw then [(tw, x)] else []
         | None \<Rightarrow> []) @
        (case Map_get (activeConnections st) sender of
           Some sw \<Rightarrow> if OPEN E sw \<and> sender \<noteq> target then [(sw, x)] else []
         | None \<Rightarrow> [])\<rparr>"
  by (simp add: sendPrivateMessage_def send_def Let_def split: option.splits)

text \<open>
  Delivering changes nothing but the log of deliveries (and, for the roster, the log
  of rejections).
\<close>

lemma sendPrivateMessage_frame:
  "users (sendPrivateMessage E x t s st) = users st"
  "messageHistory (sendPrivateMessage E x t s st) = messageHistory st"
  "activeConnections (sendPrivateMessage E x t s st) = activeConnections st"
  "unhandled (sendPrivateMessage E x t s st) = unhandled st"
  by (simp_all add: sendPrivateMessage_def send_def Let_def split: option.splits)

lemma notifyAll_frame:
  "users (fst (notifyAll E m st)) = users st"
  "messageHistory (fst (notifyAll E m st)) = messageHistory st"
  "activeConnections (fst (notifyAll E m st)) = activeConnections st"
  "unhandled (fst (notifyAll E m st)) = unhandled st"
  by (simp_all add: notifyAll_def onChatEvent_def sendPrivateMessage_frame
      broadcastMessage_def split: sum.splits)

lemma notifyAll_ok:
  "buildError E m = None \<Longrightarrow> type m \<noteq> ''PRIVATE'' \<Longrightarrow>
     notifyAll E m st = (broadcastMessage E (Xml ''message'' m) st, Inr ())"
  by (simp add: notifyAll_def onChatEvent_def messageToXml_def)

lemma notifyAll_fails:
  "buildError E m = Some e \<Longrightarrow> notifyAll E m st = (st, Inl e)"
  by (simp add: notifyAll_def onChatEvent_def messageToXml_def)

lemma sendUserListUpdate_frame:
  "users (sendUserListUpdate E now st) = users st"
  "messageHistory (sendUserListUpdate E now st) = messageHistory st"
  "activeConnections (sendUserListUpdate E now st) = activeConnections st"
  by (simp_all add: sendUserListUpdate_def broadcastMessage_def reject_def split: sum.splits)

lemma sendUserListUpdate_outbox:
  "outbox (sendUserListUpdate E now st) = outbox st @
     (case buildError E (userListMessage now (getUsers st)) of
        None \<Rightarrow> rosterSends E now st | Some e \<Rightarrow> [])"
  by (simp add: sendUserListUpdate_def broadcastMessage_def reject_def rosterSends_def
      messageToXml_def split: option.splits)

lemma caught_frame:
  "users (caught E now w e st) = users st"
  "messageHistory (caught E now w e st) = messageHistory st"
  "activeConnections (caught E now w e st) = activeConnections st"
  by (simp_all add: caught_def send_def reject_def split: sum.splits)

text \<open>
  The replay loop sends the messages of its list that are not skipped, in order, up to
  the first one that cannot be rendered, and ends normally exactly when there is none.
\<close>

lemma replayLoop_state:
  "fst (replayLoop E w uid ms st) =
     st\<lparr>outbox := outbox st @
          map (\<lambda>msg. (w, Xml ''message'' msg))
              (takeWhile (\<lambda>msg. buildError E msg = None)
                         (filter (\<lambda>msg. \<not> skipInReplay uid msg) ms))\<rparr>"
proof (induction ms arbitrary: st)
  case Nil
  show ?case by simp
next
  case (Cons msg ms)
  show ?case
  proof (cases "skipInReplay uid msg")
    case True
    then show ?thesis using Cons by simp
  next
    case False
    show ?thesis
    proof (cases "buildError E msg")
      case None
      then show ?thesis
        using False Cons [of "send w (Xml ''message'' msg) st"]
        by (simp add: messageToXml_def send_def)
    next
      case (Some e)
      then show ?thesis using False by (simp add: messageToXml_def)
    qed
  qed
qed

lemma replayLoop_result:
  "(snd (replayLoop E w uid ms st) = Inr ())
     = list_all (\<lambda>msg. buildError E msg = None) (filter (\<lambda>msg. \<not> skipInReplay uid msg) ms)"
proof (induction ms arbitrary: st)
  case Nil
  show ?case by simp
next
  case (Cons msg ms)
  show ?case
  proof (cases "skipInReplay uid msg")
    case True
    then show ?thesis using Cons by simp
  next
    case False
    show ?thesis
    proof (cases "buildError E msg")
      case None
      then show ?thesis
        using False Cons [of "send w (Xml ''message'' msg) st"]
        by (simp add: messageToXml_def)
    next
      case (Some e)
      then show ?thesis using False by (simp add: messageToXml_def)
    qed
  qed
qed

lemma replayLoop_window:
  "outbox (fst (replayLoop E w uid (getMessageHistory 20 h) st))
     = outbox st @ replaySends E w uid h"
  by (simp add: replayLoop_state replaySends_def replayed_def historyReplay_def)

lemma replayLoop_window_result:
  "(snd (replayLoop E w uid (getMessageHistory 20 h) st) = Inr ())
     = list_all (\<lambda>msg. buildError E msg = None) (historyReplay uid h)"
  by (simp add: replayLoop_result historyReplay_def)

lemma replayLoop_frame:
  "users (fst (replayLoop E w uid ms st)) = users st"
  "messageHistory (fst (replayLoop E w uid ms st)) = messageHistory st"
  "activeConnections (fst (replayLoop E w uid ms st)) = activeConnections st"
  "unhandled (fst (replayLoop E w uid ms st)) = unhandled st"
  by (simp_all add: replayLoop_state)

text \<open>The join after the identity is settled: what it keeps, what it sends, when it ends.\<close>

lemma completeJoin_frame:
  "users (fst (completeJoin E now w uid st)) = users st"
  "messageHistory (fst (completeJoin E now w uid st)) = messageHistory st"
  "activeConnections (fst (completeJoin E now w uid st))
     = Map_set uid w (activeConnections st)"
proof -
  let ?st1 = "st\<lparr>activeConnections := Map_set uid w (activeConnections st)\<rparr>"
  let ?P = "\<lambda>s. users s = users st \<and> messageHistory s = messageHistory st
              \<and> activeConnections s = Map_set uid w (activeConnections st)"
  have "?P (fst (completeJoin E now w uid st))"
  proof (cases "messageToXml E (joinResponse now uid)")
    case (Inl e)
    then show ?thesis by (simp add: completeJoin_def)
  next
    case (Inr x)
    let ?st2 = "send w x ?st1"
    let ?r = "replayLoop E w uid (getMessageHistory 20 (messageHistory ?st2)) ?st2"
    have c: "completeJoin E now w uid st
               = andThen ?r (\<lambda>st3 _. (sendUserListUpdate E now st3, Inr ()))"
      using Inr by (simp add: completeJoin_def Let_def)
    have r: "?P (fst ?r)" by (simp add: replayLoop_frame send_def)
    show ?thesis
    proof (cases "snd ?r")
      case (Inl e)
      then show ?thesis using r unfolding c by (simp only: andThen_Inl fst_conv)
    next
      case (Inr u)
      then show ?thesis
        using r unfolding c by (simp only: andThen_Inr fst_conv sendUserListUpdate_frame)
    qed
  qed
  then show "users (fst (completeJoin E now w uid st)) = users st"
    and "messageHistory (fst (completeJoin E now w uid st)) = messageHistory st"
    and "activeConnections (fst (completeJoin E now w uid st))
     = Map_set uid w (activeConnections st)"
    by simp_all
qed

lemma completeJoin_result:
  "(snd (completeJoin E now w uid st) = Inr ())
     = (buildError E (joinResponse now uid) = None
        \<and> list_all (\<lambda>msg. buildError E msg = None) (historyReplay uid (messageHistory st)))"
proof (cases "buildError E (joinResponse now uid)")
  case (Some e)
  then show ?thesis by (simp add: completeJoin_def messageToXml_def)
next
  case None
  let ?st2 = "send w (Xml ''message'' (joinResponse now uid))
                (st\<lparr>activeConnections := Map_set uid w (activeConnections st)\<rparr>)"
  let ?r = "replayLoop E w uid (getMessageHistory 20 (messageHistory st)) ?st2"
  have c: "completeJoin E now w uid st
             = andThen ?r (\<lambda>st3 _. (sendUserListUpdate E now st3, Inr ()))"
    using None by (simp add: completeJoin_def Let_def messageToXml_def send_def)
  have "(snd (andThen ?r (\<lambda>st3 _. (sendUserListUpdate E now st3, Inr ()))) = Inr ())
          = (snd ?r = Inr ())"
    by (cases "snd ?r") (simp_all add: andThen_def)
  then show ?thesis
    using None unfolding c by (simp add: replayLoop_window_result)
qed

lemma completeJoin_outbox:
  "outbox (fst (completeJoin E now w uid st)) = outbox st @
     (case buildError E (joinResponse now uid) of
        Some e \<Rightarrow> []
      | None \<Rightarrow>
          (w, Xml ''message'' (joinResponse now uid))
          # replaySends E w uid (messageHistory st)
          @ (if list_all (\<lambda>msg. buildError E msg = None)
                         (historyReplay uid (messageHistory st))
                \<and> buildError E (userListMessage now (getUsers st)) = None
             then rosterSends E now
                    (st\<lparr>activeConnections := Map_set uid w (activeConnections st)\<rparr>)
             else []))"
proof (cases "buildError E (joinResponse now uid)")
  case (Some e)
  then show ?thesis by (simp add: completeJoin_def messageToXml_def)
next
  case None
  let ?st1 = "st\<lparr>activeConnections := Map_set uid w (activeConnections st)\<rparr>"
  let ?st2 = "send w (Xml ''message'' (joinResponse now uid)) ?st1"
  let ?r = "replayLoop E w uid (getMessageHistory 20 (messageHistory st)) ?st2"
  have c: "completeJoin E now w uid st
             = andThen ?r (\<lambda>st3 _. (sendUserListUpdate E now st3, Inr ()))"
    using None by (simp add: completeJoin_def Let_def messageToXml_def send_def)
  have r: "outbox (fst ?r) = outbox st @ (w, Xml ''message'' (joinResponse now uid))
             # replaySends E w uid (messageHistory st)"
    by (simp add: replayLoop_window send_def)
  have frame: "users (fst ?r) = users st"
    "activeConnections (fst ?r) = Map_set uid w (activeConnections st)"
    by (simp_all add: replayLoop_frame send_def)
  show ?thesis
  proof (cases "snd ?r")
    case (Inl e)
    then have "\<not> list_all (\<lambda>msg. buildError E msg = None)
                         (historyReplay uid (messageHistory st))"
      using replayLoop_window_result [of E w uid "messageHistory st" ?st2] by simp
    then show ?thesis
      using None Inl r unfolding c by (simp add: andThen_Inl)
  next
    case (Inr u)
    then have all: "list_all (\<lambda>msg. buildError E msg = None)
                         (historyReplay uid (messageHistory st))"
      using replayLoop_window_result [of E w uid "messageHistory st" ?st2] by simp
    have roster: "rosterSends E now (fst ?r) = rosterSends E now ?st1"
      by (simp add: rosterSends_def getUsers_def frame)
    show ?thesis
      using None Inr r all roster unfolding c
      by (simp add: andThen_Inr sendUserListUpdate_outbox getUsers_def frame
          split: option.splits)
  qed
qed

section \<open>The handlers keep the history bounded\<close>

lemma registerUser_historyOk:
  "historyOk st \<Longrightarrow> historyOk (fst (registerUser E now uuid name st))"
  by (auto simp: registerUser_def Let_def historyOk_def notifyAll_frame length_saveMessage
      andThen_same_state split: option.splits)

lemma sendMessage_historyOk:
  "historyOk st \<Longrightarrow> historyOk (fst (sendMessage E now md st))"
  by (auto simp: sendMessage_def Let_def historyOk_def notifyAll_frame length_saveMessage
      split: option.splits)

lemma rmi_sendPrivateMessage_historyOk:
  "historyOk st \<Longrightarrow> historyOk (fst (rmi_sendPrivateMessage E now md st))"
  by (auto simp: rmi_sendPrivateMessage_def Let_def historyOk_def notifyAll_frame
      length_saveMessage split: option.splits)

lemma disconnectUser_historyOk:
  "historyOk st \<Longrightarrow> historyOk (fst (disconnectUser E now uid st))"
  by (auto simp: disconnectUser_def Let_def historyOk_def notifyAll_frame length_saveMessage
      andThen_same_state split: option.splits)

lemma completeJoin_historyOk:
  "historyOk st \<Longrightarrow> historyOk (fst (completeJoin E now w uid st))"
  by (simp add: historyOk_def completeJoin_frame)

lemma registerAndJoin_historyOk:
  assumes "historyOk st"
  shows "historyOk (fst (andThen (registerUser E now uuid name st) (\<lambda>st1 newId.
              andThen (completeJoin E now w newId st1) (\<lambda>st2 _. (st2, Inr (Some newId))))))"
proof (cases "snd (registerUser E now uuid name st)")
  case (Inl e)
  then show ?thesis
    using registerUser_historyOk [OF assms, of E now uuid name] by (simp add: andThen_Inl)
next
  case (Inr newId)
  have "historyOk (fst (completeJoin E now w newId (fst (registerUser E now uuid name st))))"
    using registerUser_historyOk [OF assms] by (rule completeJoin_historyOk)
  then show ?thesis
    using Inr by (simp add: andThen_Inr andThen_same_state)
qed

lemma handleJoin_historyOk:
  assumes "historyOk st"
  shows "historyOk (fst (handleJoin E now uuid w message st))"
  using assms registerAndJoin_historyOk [OF assms] completeJoin_historyOk [OF assms]
  unfolding handleJoin_def Let_def
  by (auto simp: andThen_same_state historyOk_def send_def split: option.splits sum.splits)

lemma dispatch_historyOk:
  assumes "historyOk st"
  shows "historyOk (fst (dispatch E now uuid w message (st, cu)))"
proof -
  have "historyOk (fst (andThen (disconnectUser E now uid st) (\<lambda>st1 _.
          (st1\<lparr>activeConnections := Map_delete uid (activeConnections st1)\<rparr>, Inr None))))"
    for uid
    using disconnectUser_historyOk [OF assms, of E now uid]
    by (cases "snd (disconnectUser E now uid st)")
      (simp_all add: andThen_Inl andThen_Inr historyOk_def)
  then show ?thesis
    using assms handleJoin_historyOk [OF assms] sendMessage_historyOk [OF assms]
      rmi_sendPrivateMessage_historyOk [OF assms]
    unfolding dispatch_def Let_def
    by (auto simp: andThen_same_state split: option.splits)
qed

lemma onMessage_historyOk:
  assumes "historyOk st"
  shows "historyOk (fst (onMessage E now uuid w d (st, cu)))"
  using assms dispatch_historyOk [OF assms]
  unfolding onMessage_def Let_def
  by (auto simp: historyOk_def caught_frame split: option.splits sum.splits)

lemma onClose_historyOk:
  assumes "historyOk st"
  shows "historyOk (fst (onClose E now (st, cu)))"
proof -
  have "historyOk (fst (disconnectUser E now uid
          (st\<lparr>activeConnections := Map_delete uid (activeConnections st)\<rparr>)))" for uid
    using assms by (intro disconnectUser_historyOk) (simp add: historyOk_def)
  then show ?thesis
    using assms unfolding onClose_def Let_def
    by (auto simp: historyOk_def reject_def split: option.splits sum.splits)
qed

lemma httpRegister_historyOk:
  "historyOk st \<Longrightarrow> historyOk (fst (httpRegister E now uuid name st, c))"
  by (simp add: httpRegister_def registerUser_historyOk)

lemma step_historyOk: "historyOk (fst c) \<Longrightarrow> historyOk (fst (step ev c))"
proof -
  obtain E e where ev: "ev = (E, e)" by (cases ev)
  obtain st conn where c: "c = (st, conn)" by (cases c)
  assume "historyOk (fst c)"
  then have "historyOk st" by (simp add: c)
  then show ?thesis
    unfolding ev c
    using httpRegister_historyOk [of st]
    by (cases e) (simp_all add: Let_def onMessage_historyOk onClose_historyOk)
qed

lemma run_historyOk: "historyOk (fst (run evs))"
proof (induction evs rule: rev_induct)
  case Nil
  show ?case by (simp add: run_def historyOk_def st0_def)
next
  case (snoc ev evs)
  have "run (evs @ [ev]) = step ev (run evs)" by (simp add: run_def)
  then show ?case using snoc by (simp add: step_historyOk)
qed

lemma saveAll_manyMessages: "saveAll [] manyMessages = map chatMsg [1..<101]"
  by (simp add: saveAll_drop) (simp add: manyMessages_def MAX_HISTORY_def drop_map)

text \<open>
  Claim C2. In every state that the server reaches from its start, whatever the events,
  the history holds at most 100 messages. Starting from the empty history, after any
  number of appended messages the history holds at most 100 of them; an append to a full history drops the oldest
  message and keeps the rest in order; when more than 100 messages were appended,
  \<open>getMessageHistory(1000)\<close> returns exactly the last 100 in their insertion order; and a
  limit that is at least the stored count returns the whole history (the function is
  total: it clamps and never throws).
\<close>

theorem history_bound_and_recent:
  assumes "MAX_HISTORY < length ms"
  shows "length (messageHistory (fst (run evs))) \<le> 100
       \<and> (\<forall>k. length (saveAll [] (take k ms)) \<le> 100)
       \<and> (\<forall>h m. length h = MAX_HISTORY \<longrightarrow> saveMessage m h = tl h @ [m])
       \<and> getMessageHistory 1000 (saveAll [] ms) = drop (length ms - 100) ms
       \<and> length (getMessageHistory 1000 (saveAll [] ms)) = 100
       \<and> (\<forall>h limit. int (length h) \<le> limit \<longrightarrow> getMessageHistory limit h = h)"
proof (intro conjI allI impI)
  show "length (messageHistory (fst (run evs))) \<le> 100"
    using run_historyOk [of evs] by (simp add: historyOk_def MAX_HISTORY_def)
next
  fix k
  show "length (saveAll [] (take k ms)) \<le> 100"
    by (simp add: saveAll_drop) (simp add: MAX_HISTORY_def)
next
  fix h :: "message list" and m
  assume "length h = MAX_HISTORY"
  then show "saveMessage m h = tl h @ [m]" by (rule saveMessage_full)
next
  have stored: "saveAll [] ms = drop (length ms - 100) ms"
    by (simp add: saveAll_drop) (simp add: MAX_HISTORY_def)
  have "int (length (saveAll [] ms)) \<le> 1000"
    unfolding stored by simp
  then have "getMessageHistory 1000 (saveAll [] ms) = saveAll [] ms"
    by (rule getMessageHistory_clamp)
  then show "getMessageHistory 1000 (saveAll [] ms) = drop (length ms - 100) ms"
    and "length (getMessageHistory 1000 (saveAll [] ms)) = 100"
    using assms by (simp_all add: stored MAX_HISTORY_def)
next
  fix h :: "message list" and limit
  assume "int (length h) \<le> limit"
  then show "getMessageHistory limit h = h" by (rule getMessageHistory_clamp)
qed

theorem history_bound_and_recent_witness:
  "MAX_HISTORY < length manyMessages
   \<and> getMessageHistory 1000 (saveAll [] manyMessages) = map chatMsg [1..<101]
   \<and> length (getMessageHistory 1000 (saveAll [] manyMessages)) = 100"
proof -
  have h: "MAX_HISTORY < length manyMessages"
    by (simp add: manyMessages_def MAX_HISTORY_def)
  have "drop (length manyMessages - 100) manyMessages = map chatMsg [1..<101]"
    by (simp add: manyMessages_def drop_map)
  then show ?thesis
    using h history_bound_and_recent [OF h, of "[]"] by simp
qed

section \<open>Join-time replay\<close>

lemma registerUser_id: "snd (registerUser E now uuid name st) = Inr i \<Longrightarrow> i = uuid"
  by (auto simp: registerUser_def Let_def andThen_def split: option.splits if_splits sum.splits)

text \<open>
  Every path through \<open>handleJoin\<close>: it stops before the join proper (the state is as
  it was, possibly with the name-taken reply sent, or as \<open>registerUser\<close> left it when
  it threw), or it runs the join proper for the frame's id on the state as it was, or
  for the new id on the state after the registration.
\<close>

lemma handleJoin_states:
  "fst (handleJoin E now uuid w message st) = st
   \<or> fst (handleJoin E now uuid w message st) = send w (Xml ''message'' (nameTakenResponse now)) st
   \<or> fst (handleJoin E now uuid w message st)
       = fst (registerUser E now uuid (f_username message) st)
   \<or> (case f_userId message of
         Some uid \<Rightarrow> fst (handleJoin E now uuid w message st)
                       = fst (completeJoin E now w uid st)
       | None \<Rightarrow> False)
   \<or> fst (handleJoin E now uuid w message st)
       = fst (completeJoin E now w uuid
                (fst (registerUser E now uuid (f_username message) st)))"
proof -
  let ?reg = "registerUser E now uuid (f_username message) st"
  let ?raj = "andThen ?reg (\<lambda>st1 newId.
              andThen (completeJoin E now w newId st1) (\<lambda>st2 _. (st2, Inr (Some newId))))"
  have raj: "fst ?raj = fst ?reg \<or> fst ?raj = fst (completeJoin E now w uuid (fst ?reg))"
  proof (cases "snd ?reg")
    case (Inl e)
    then show ?thesis by (simp add: andThen_Inl)
  next
    case (Inr i)
    then have "i = uuid" by (rule registerUser_id)
    then show ?thesis using Inr by (simp add: andThen_Inr andThen_same_state)
  qed
  show ?thesis
    unfolding handleJoin_def Let_def
    using raj
    by (auto simp: andThen_same_state messageToXml_def split: option.splits sum.splits)
qed

text \<open>
  Claim C10. The join proper sends the confirmation, then frames of the history, then
  (when the replay ran to its end) the roster. The frames of the history are renderings
  of messages taken in order from the last 20 of the history only (the default of
  \<open>getMessageHistory\<close>), whatever the history holds, so they are at most 20; every
  run of \<open>handleJoin\<close> either sends no history at all or is such a join. After 101
  public messages the history holds 100 of them and the replay sends 20.
\<close>

theorem join_replay_at_most_20:
  "outbox (fst (completeJoin E now w uid st)) = outbox st @
     (case buildError E (joinResponse now uid) of
        Some e \<Rightarrow> []
      | None \<Rightarrow>
          (w, Xml ''message'' (joinResponse now uid))
          # replaySends E w uid (messageHistory st)
          @ (if list_all (\<lambda>msg. buildError E msg = None)
                         (historyReplay uid (messageHistory st))
                \<and> buildError E (userListMessage now (getUsers st)) = None
             then rosterSends E now
                    (st\<lparr>activeConnections := Map_set uid w (activeConnections st)\<rparr>)
             else []))
   \<and> replaySends E w uid h =
      map (\<lambda>msg. (w, Xml ''message'' msg))
          (takeWhile (\<lambda>msg. buildError E msg = None)
             (filter (\<lambda>msg. \<not> skipInReplay uid msg) (drop (length h - 20) h)))
   \<and> length (replaySends E w uid h) \<le> 20
   \<and> (fst (handleJoin E now uuid w message st) = st
        \<or> fst (handleJoin E now uuid w message st)
            = send w (Xml ''message'' (nameTakenResponse now)) st
        \<or> fst (handleJoin E now uuid w message st)
            = fst (registerUser E now uuid (f_username message) st)
        \<or> (case f_userId message of
              Some uid' \<Rightarrow> fst (handleJoin E now uuid w message st)
                            = fst (completeJoin E now w uid' st)
            | None \<Rightarrow> False)
        \<or> fst (handleJoin E now uuid w message st)
            = fst (completeJoin E now w uuid
                     (fst (registerUser E now uuid (f_username message) st))))
   \<and> length (saveAll [] manyMessages) = 100
   \<and> replaySends env0 w uid (saveAll [] manyMessages)
       = map (\<lambda>msg. (w, Xml ''message'' msg)) (map chatMsg [81..<101])"
proof (intro conjI)
  show "outbox (fst (completeJoin E now w uid st)) = outbox st @
     (case buildError E (joinResponse now uid) of
        Some e \<Rightarrow> []
      | None \<Rightarrow>
          (w, Xml ''message'' (joinResponse now uid))
          # replaySends E w uid (messageHistory st)
          @ (if list_all (\<lambda>msg. buildError E msg = None)
                         (historyReplay uid (messageHistory st))
                \<and> buildError E (userListMessage now (getUsers st)) = None
             then rosterSends E now
                    (st\<lparr>activeConnections := Map_set uid w (activeConnections st)\<rparr>)
             else []))"
    by (rule completeJoin_outbox)
  show "replaySends E w uid h =
      map (\<lambda>msg. (w, Xml ''message'' msg))
          (takeWhile (\<lambda>msg. buildError E msg = None)
             (filter (\<lambda>msg. \<not> skipInReplay uid msg) (drop (length h - 20) h)))"
    by (simp add: replaySends_def replayed_def historyReplay_def getMessageHistory_20)
  have "length (replayed E uid h) \<le> length (historyReplay uid h)"
    unfolding replayed_def by (rule length_takeWhile_le)
  also have "\<dots> \<le> length (drop (length h - 20) h)"
    unfolding historyReplay_def getMessageHistory_20 by (rule length_filter_le)
  finally show "length (replaySends E w uid h) \<le> 20"
    by (simp add: replaySends_def)
  show "fst (handleJoin E now uuid w message st) = st
        \<or> fst (handleJoin E now uuid w message st)
            = send w (Xml ''message'' (nameTakenResponse now)) st
        \<or> fst (handleJoin E now uuid w message st)
            = fst (registerUser E now uuid (f_username message) st)
        \<or> (case f_userId message of
              Some uid' \<Rightarrow> fst (handleJoin E now uuid w message st)
                            = fst (completeJoin E now w uid' st)
            | None \<Rightarrow> False)
        \<or> fst (handleJoin E now uuid w message st)
            = fst (completeJoin E now w uuid
                     (fst (registerUser E now uuid (f_username message) st)))"
    by (rule handleJoin_states)
  show "length (saveAll [] manyMessages) = 100"
    by (simp add: saveAll_manyMessages)
  have legal: "xmlLegal (replicate n (CHR ''x''))" for n
    by (induction n) (simp_all add: xmlLegal_def xmlLegalChar_def)
  have esc: "textEscape (replicate n (CHR ''x'')) = replicate n (CHR ''x'')" for n
    by (induction n) (simp_all add: textEscape_def textEscapeChar_def)
  have enc: "buildError env0 (chatMsg n) = None" for n
    using legal [of n]
    by (simp add: env0_def xmlbuilderError_def chatMsg_def fieldValues_def esc)
      (simp add: textEscape_def textEscapeChar_def xmlLegal_def xmlLegalChar_def)
  have "\<not> skipInReplay uid (chatMsg n)" for n
    by (simp add: skipInReplay_def chatMsg_def)
  then show "replaySends env0 w uid (saveAll [] manyMessages)
       = map (\<lambda>msg. (w, Xml ''message'' msg)) (map chatMsg [81..<101])"
    by (simp add: replaySends_def replayed_def historyReplay_def getMessageHistory_20
        saveAll_manyMessages drop_map enc takeWhile_map comp_def)
qed




section \<open>Unicast\<close>

text \<open>
  Claim C7. \<open>sendPrivateMessage\<close> of the socket handler delivers the document to the
  target's socket when it is bound and open, and a copy to the sender's socket when
  that is bound and open and the sender is not the target. Without an open binding of
  the target only the sender's copy is delivered; when sender and target are the same
  user with an open socket, exactly one copy is delivered. Nothing but the log of
  deliveries changes.
\<close>

theorem unicast_delivery:
  fixes E x target sender st
  defines "conns \<equiv> activeConnections st"
  defines "delivered \<equiv> newSends st (sendPrivateMessage E x (Some target) sender st)"
  shows "(\<forall>tw. Map_get conns target = Some tw \<and> OPEN E tw \<longrightarrow> (tw, x) \<in> set delivered)
       \<and> (\<forall>sw. Map_get conns sender = Some sw \<and> OPEN E sw \<and> sender \<noteq> target
              \<longrightarrow> (sw, x) \<in> set delivered)
       \<and> (\<forall>sw. \<not> (\<exists>tw. Map_get conns target = Some tw \<and> OPEN E tw)
              \<and> Map_get conns sender = Some sw \<and> OPEN E sw \<and> sender \<noteq> target
              \<longrightarrow> delivered = [(sw, x)])
       \<and> (\<forall>tw. sender = target \<and> Map_get conns target = Some tw \<and> OPEN E tw
              \<longrightarrow> delivered = [(tw, x)])
       \<and> (\<forall>tw sw. Map_get conns target = Some tw \<and> OPEN E tw
              \<and> Map_get conns sender = Some sw \<and> OPEN E sw \<and> sender \<noteq> target
              \<longrightarrow> delivered = [(tw, x), (sw, x)])
       \<and> users (sendPrivateMessage E x (Some target) sender st) = users st
       \<and> messageHistory (sendPrivateMessage E x (Some target) sender st) = messageHistory st
       \<and> activeConnections (sendPrivateMessage E x (Some target) sender st) = conns"
  unfolding delivered_def conns_def sendPrivateMessage_outbox newSends_def
  by (auto split: option.splits)

theorem unicast_delivery_witness:
  "newSends twoBound
     (sendPrivateMessage env0 (Xml ''message'' (privateMsg ''id-a'' ''id-b'')) (Some ''id-b'')
        ''id-a'' twoBound)
     = [(2, Xml ''message'' (privateMsg ''id-a'' ''id-b'')),
        (1, Xml ''message'' (privateMsg ''id-a'' ''id-b''))]
   \<and> newSends twoBound
     (sendPrivateMessage env0 (Xml ''message'' (privateMsg ''id-a'' ''id-c'')) (Some ''id-c'')
        ''id-a'' twoBound)
     = [(1, Xml ''message'' (privateMsg ''id-a'' ''id-c''))]
   \<and> newSends twoBound
     (sendPrivateMessage env0 (Xml ''message'' (privateMsg ''id-a'' ''id-a'')) (Some ''id-a'')
        ''id-a'' twoBound)
     = [(1, Xml ''message'' (privateMsg ''id-a'' ''id-a''))]"
  using
    unicast_delivery [where st = twoBound and target = "''id-b''" and E = env0
      and sender = "''id-a''" and x = "Xml ''message'' (privateMsg ''id-a'' ''id-b'')"]
    unicast_delivery [where st = twoBound and target = "''id-c''" and E = env0
      and sender = "''id-a''" and x = "Xml ''message'' (privateMsg ''id-a'' ''id-c'')"]
    unicast_delivery [where st = twoBound and target = "''id-a''" and E = env0
      and sender = "''id-a''" and x = "Xml ''message'' (privateMsg ''id-a'' ''id-a'')"]
  by (simp add: twoBound_def st0_def env0_def)

section \<open>Session protocol\<close>

text \<open>
  Claim C8. A JOIN frame that carries an id under which a user is registered (ids are
  issued by \<open>uuidv4\<close>, so the id is neither empty nor \<open>system\<close>) is handled as a
  reconnect: \<open>handleJoin\<close> goes straight to the binding step, whatever \<open>uuidv4\<close> would
  return, so there is no call of \<open>registerUser\<close>; the registry and the history are
  unchanged, the roster keeps its size, and the socket is bound to that id. All this
  holds also when the confirmation or the replay cannot be rendered and the function
  throws after the binding; when they can be rendered, the function returns and the
  connection stores the id.
\<close>

theorem reconnect_preserves_identity:
  assumes "f_userId message = Some uid" and "uid \<noteq> []" and "uid \<noteq> ''system''"
    and "uid \<in> set (map u_userId (getUsers st))"
  shows "fst (handleJoin E now uuid w message st) = fst (completeJoin E now w uid st)
       \<and> users (fst (handleJoin E now uuid w message st)) = users st
       \<and> length (getUsers (fst (handleJoin E now uuid w message st))) = length (getUsers st)
       \<and> messageHistory (fst (handleJoin E now uuid w message st)) = messageHistory st
       \<and> activeConnections (fst (handleJoin E now uuid w message st))
           = Map_set uid w (activeConnections st)
       \<and> Map_get (activeConnections (fst (handleJoin E now uuid w message st))) uid = Some w
       \<and> (snd (handleJoin E now uuid w message st) = Inr (Some uid))
           = (buildError E (joinResponse now uid) = None
              \<and> list_all (\<lambda>msg. buildError E msg = None)
                          (historyReplay uid (messageHistory st)))
       \<and> (xmlToMessage E data' = Inr (Some message) \<and> f_type message = Some ''JOIN''
            \<longrightarrow> users (fst (onMessage E now uuid w data' (st, connUserId))) = users st
              \<and> messageHistory (fst (onMessage E now uuid w data' (st, connUserId)))
                  = messageHistory st
              \<and> activeConnections (fst (onMessage E now uuid w data' (st, connUserId)))
                  = Map_set uid w (activeConnections st)
              \<and> (buildError E (joinResponse now uid) = None
                  \<and> list_all (\<lambda>msg. buildError E msg = None)
                              (historyReplay uid (messageHistory st))
                  \<longrightarrow> onMessage E now uuid w data' (st, connUserId)
                        = (fst (completeJoin E now w uid st), Some uid)))"
proof -
  let ?cj = "completeJoin E now w uid st"
  let ?hj = "handleJoin E now uuid w message st"
  have ex: "list_ex (\<lambda>u. u_userId u = uid) (getUsers st)"
    using assms(4) by (auto simp: list_ex_iff)
  have hj: "?hj = andThen ?cj (\<lambda>st2 _. (st2, Inr (Some uid)))"
    using assms(1-3) ex by (simp add: handleJoin_def)
  have state: "fst ?hj = fst ?cj"
    unfolding hj by (simp add: andThen_same_state)
  have result: "(snd ?hj = Inr (Some uid)) = (snd ?cj = Inr ())"
    unfolding hj by (cases "snd ?cj") (simp_all add: andThen_def)
  have frame: "users (fst ?hj) = users st" "messageHistory (fst ?hj) = messageHistory st"
    "activeConnections (fst ?hj) = Map_set uid w (activeConnections st)"
    unfolding state by (simp_all add: completeJoin_frame)
  have ok: "(snd ?hj = Inr (Some uid))
           = (buildError E (joinResponse now uid) = None
              \<and> list_all (\<lambda>msg. buildError E msg = None)
                          (historyReplay uid (messageHistory st)))"
    unfolding result by (rule completeJoin_result)
  have listener: "users (fst (onMessage E now uuid w data' (st, connUserId))) = users st
              \<and> messageHistory (fst (onMessage E now uuid w data' (st, connUserId)))
                  = messageHistory st
              \<and> activeConnections (fst (onMessage E now uuid w data' (st, connUserId)))
                  = Map_set uid w (activeConnections st)
              \<and> (buildError E (joinResponse now uid) = None
                  \<and> list_all (\<lambda>msg. buildError E msg = None)
                              (historyReplay uid (messageHistory st))
                  \<longrightarrow> onMessage E now uuid w data' (st, connUserId)
                        = (fst (completeJoin E now w uid st), Some uid))"
    if dec: "xmlToMessage E data' = Inr (Some message)" and join: "f_type message = Some ''JOIN''"
  proof -
    have d: "dispatch E now uuid w message (st, connUserId) = ?hj"
      using join by (simp add: dispatch_def)
    show ?thesis
    proof (cases "snd ?hj")
      case (Inl e)
      then have "onMessage E now uuid w data' (st, connUserId)
                   = (caught E now w e (fst ?hj), connUserId)"
        using dec d by (simp add: onMessage_def Let_def)
      moreover have "\<not> (buildError E (joinResponse now uid) = None
                  \<and> list_all (\<lambda>msg. buildError E msg = None)
                              (historyReplay uid (messageHistory st)))"
        using ok Inl by simp
      ultimately show ?thesis
        using frame by (auto simp: caught_frame)
    next
      case (Inr v)
      then have "onMessage E now uuid w data' (st, connUserId) = (fst ?hj, v)"
        using dec d by (simp add: onMessage_def Let_def)
      then show ?thesis
        using frame ok Inr state by auto
    qed
  qed
  show ?thesis
    using state frame ok listener by (simp add: getUsers_def Map_get_set_same)
qed

theorem reconnect_preserves_identity_witness:
  "f_userId (joinFrame (Some ''id-a'') ''Alice'') = Some ''id-a''
   \<and> ''id-a'' \<in> set (map u_userId (getUsers (fst aliceJoined)))
   \<and> users (fst (handleJoin env0 ''t9'' ''id-z'' 7 (joinFrame (Some ''id-a'') ''Alice'')
                    (fst aliceJoined))) = users (fst aliceJoined)
   \<and> Map_get (activeConnections
        (fst (handleJoin env0 ''t9'' ''id-z'' 7 (joinFrame (Some ''id-a'') ''Alice'')
                (fst aliceJoined)))) ''id-a'' = Some 7
   \<and> xmlToMessage env0 ''rejoin-alice'' = Inr (Some (joinFrame (Some ''id-a'') ''Alice''))
   \<and> f_type (joinFrame (Some ''id-a'') ''Alice'') = Some ''JOIN''
   \<and> buildError env0 (joinResponse ''t9'' ''id-a'') = None
   \<and> list_all (\<lambda>msg. buildError env0 msg = None)
               (historyReplay ''id-a'' (messageHistory (fst aliceJoined)))
   \<and> (users \<circ> fst) (onMessage env0 ''t9'' ''id-z'' 7 ''rejoin-alice'' (fst aliceJoined, None))
       = users (fst aliceJoined)
   \<and> snd (onMessage env0 ''t9'' ''id-z'' 7 ''rejoin-alice'' (fst aliceJoined, None))
       = Some ''id-a''"
proof -
  have h1: "f_userId (joinFrame (Some ''id-a'') ''Alice'') = Some ''id-a''"
    by (simp add: joinFrame_def)
  have h2: "''id-a'' \<noteq> []" and h3: "''id-a'' \<noteq> ''system''"
    by simp_all
  have h4: "''id-a'' \<in> set (map u_userId (getUsers (fst aliceJoined)))"
    by code_simp
  have h5: "xmlToMessage env0 ''rejoin-alice'' = Inr (Some (joinFrame (Some ''id-a'') ''Alice''))"
    by (simp add: xmlToMessage_def env0_def parse0_def)
  have h6: "f_type (joinFrame (Some ''id-a'') ''Alice'') = Some ''JOIN''"
    by (simp add: joinFrame_def)
  have h7: "buildError env0 (joinResponse ''t9'' ''id-a'') = None"
    by code_simp
  have h8: "list_all (\<lambda>msg. buildError env0 msg = None)
               (historyReplay ''id-a'' (messageHistory (fst aliceJoined)))"
    by code_simp
  note r = reconnect_preserves_identity [OF h1 h2 h3 h4, where E = env0 and now = "''t9''"
        and uuid = "''id-z''" and w = 7 and data' = "''rejoin-alice''" and connUserId = None]
  note r2 = r [THEN conjunct2]
  note r6 = r2 [THEN conjunct2, THEN conjunct2, THEN conjunct2, THEN conjunct2]
  note r8 = r6 [THEN conjunct2, THEN conjunct2, THEN mp, OF conjI [OF h5 h6]]
  have c1: "users (fst (handleJoin env0 ''t9'' ''id-z'' 7 (joinFrame (Some ''id-a'') ''Alice'')
                    (fst aliceJoined))) = users (fst aliceJoined)"
    using r2 by (rule conjunct1)
  have c2: "Map_get (activeConnections
        (fst (handleJoin env0 ''t9'' ''id-z'' 7 (joinFrame (Some ''id-a'') ''Alice'')
                (fst aliceJoined)))) ''id-a'' = Some 7"
    using r6 by (rule conjunct1)
  have c3: "(users \<circ> fst) (onMessage env0 ''t9'' ''id-z'' 7 ''rejoin-alice''
              (fst aliceJoined, None)) = users (fst aliceJoined)"
    using r8 [THEN conjunct1] by simp
  have "onMessage env0 ''t9'' ''id-z'' 7 ''rejoin-alice'' (fst aliceJoined, None)
          = (fst (completeJoin env0 ''t9'' 7 ''id-a'' (fst aliceJoined)), Some ''id-a'')"
    using r8 [THEN conjunct2, THEN conjunct2, THEN conjunct2, THEN mp, OF conjI [OF h7 h8]] .
  then have c4: "snd (onMessage env0 ''t9'' ''id-z'' 7 ''rejoin-alice'' (fst aliceJoined, None))
       = Some ''id-a''"
    by (simp only: snd_conv)
  show ?thesis
    using h1 h4 h5 h6 h7 h8 c1 c2 c3 c4 by (intro conjI)
qed








text \<open>
  Claim C5, at a failing input. Alice (socket 1) and Bob (socket 2) have joined. When
  Alice's connection sends LOGOUT, or when its transport closes, she leaves the
  registry, and the only frames sent are the \<open>LEAVE\<close> message: no \<open>USER_LIST\<close> frame
  goes to Bob's socket.
\<close>

theorem no_roster_push_on_leave:
  "snd aliceJoined = Some ''id-a''
   \<and> map u_username (getUsers (fst bobJoined)) = [''Alice'', ''Bob'']
   \<and> map u_username (getUsers (fst (onMessage env0 ''t3'' ''id-c'' 1 ''logout-alice''
                                       (fst bobJoined, snd aliceJoined)))) = [''Bob'']
   \<and> kinds (newSends (fst bobJoined)
         (fst (onMessage env0 ''t3'' ''id-c'' 1 ''logout-alice''
                (fst bobJoined, snd aliceJoined))))
       = [(1, ''LEAVE''), (2, ''LEAVE'')]
   \<and> map u_username (getUsers (fst (onClose env0 ''t3'' (fst bobJoined, snd aliceJoined))))
       = [''Bob'']
   \<and> kinds (newSends (fst bobJoined)
         (fst (onClose env0 ''t3'' (fst bobJoined, snd aliceJoined))))
       = [(2, ''LEAVE'')]"
  by code_simp

section \<open>Registry\<close>

text \<open>
  What the two registration paths test. \<open>registerUser\<close> of the middleware refuses a
  name exactly when a registered name equals the candidate up to case, with no
  trimming on either side, and stores the user otherwise (the user stays stored when
  the join notice cannot be rendered); \<open>createUser\<close> of the user model trims the
  candidate first. After a \<open>registerUser\<close> that stored the user, every case variant
  of the name is refused.
\<close>

lemma dropWhile_id: "xs \<noteq> [] \<Longrightarrow> \<not> P (hd xs) \<Longrightarrow> dropWhile P xs = xs"
  by (cases xs) auto

lemma dropWhile_end_keeps_head:
  assumes "xs \<noteq> []" and "\<not> P (hd xs)"
  shows "\<exists>r. rev (dropWhile P (rev xs)) = hd xs # r"
proof -
  from assms obtain a r where xs: "xs = a # r" and a: "\<not> P a" by (cases xs) auto
  show ?thesis
  proof (cases "\<forall>x\<in>set (rev r). P x")
    case True
    then have "dropWhile P (rev r @ [a]) = [a]" using a by (simp add: dropWhile_append)
    then show ?thesis by (simp add: xs)
  next
    case False
    then have "dropWhile P (rev r @ [a]) = dropWhile P (rev r) @ [a]"
      by (auto simp: dropWhile_append)
    then show ?thesis by (simp add: xs)
  qed
qed

lemma trim_idem: "trim (trim s) = trim s"
proof (cases "trim s = []")
  case True
  have "trim [] = []" by (simp add: trim_def)
  then show ?thesis unfolding True .
next
  case False
  let ?d = "dropWhile isWhiteSpace s"
  have t: "trim s = rev (dropWhile isWhiteSpace (rev ?d))" by (simp add: trim_def)
  have d: "?d \<noteq> []"
  proof
    assume "?d = []"
    then have "rev (dropWhile isWhiteSpace (rev ?d)) = []"
      by (simp only: rev.simps dropWhile.simps)
    then have "trim s = []" by (simp only: trim_def)
    with False show False by (rule notE)
  qed
  then have hd_d: "\<not> isWhiteSpace (hd ?d)" by (rule hd_dropWhile)
  from dropWhile_end_keeps_head [where P = isWhiteSpace and xs = "?d", OF d hd_d]
  obtain r where "trim s = hd ?d # r"
    unfolding t by blast
  then have front: "dropWhile isWhiteSpace (trim s) = trim s"
    using hd_d by simp
  have rt: "rev (trim s) = dropWhile isWhiteSpace (rev ?d)" by (simp add: t)
  from False have "dropWhile isWhiteSpace (rev ?d) \<noteq> []" using t by auto
  then have "\<not> isWhiteSpace (hd (dropWhile isWhiteSpace (rev ?d)))" by (rule hd_dropWhile)
  then have rear: "dropWhile isWhiteSpace (rev (trim s)) = rev (trim s)"
    using False unfolding rt[symmetric] by (simp add: dropWhile_id)
  show ?thesis
    unfolding trim_def[of "trim s"] front rear by simp
qed

lemma errors_distinct:
  "emptyNameError \<noteq> nameConflictError" "emptyNameError \<noteq> nameInUseError"
  by (simp_all add: emptyNameError_def nameConflictError_def nameInUseError_def)

lemma registerUser_refuses:
  assumes "trim name \<noteq> []"
    and "\<exists>u \<in> set (getUsers st). toLowerCase (u_username u) = toLowerCase name"
  shows "registerUser E now uuid (Some name) st = (st, Inl nameConflictError)"
proof -
  have "name \<noteq> []" using assms(1) by (auto simp: trim_def)
  then show ?thesis
    using assms by (auto simp: registerUser_def getUsers_def list_ex_iff)
qed

lemma registerUser_stores:
  assumes "trim name \<noteq> []"
    and "\<not> (\<exists>u \<in> set (getUsers st). toLowerCase (u_username u) = toLowerCase name)"
  shows "users (fst (registerUser E now uuid (Some name) st))
           = Map_set uuid \<lparr>u_userId = uuid, u_username = name, u_lastActive = now\<rparr> (users st)"
    and "snd (registerUser E now uuid (Some name) st) \<noteq> Inl nameConflictError
           \<or> buildError E (createSystemMessage now (name @ '' se ha unido al chat'') ''JOIN'')
               = Some nameConflictError"
proof -
  have ne: "name \<noteq> []" using assms(1) by (auto simp: trim_def)
  let ?jm = "createSystemMessage now (name @ '' se ha unido al chat'') ''JOIN''"
  let ?st2 = "st\<lparr>users := Map_set uuid
                   \<lparr>u_userId = uuid, u_username = name, u_lastActive = now\<rparr> (users st),
                 messageHistory := saveMessage ?jm (messageHistory st)\<rparr>"
  have r: "registerUser E now uuid (Some name) st
             = andThen (notifyAll E ?jm ?st2) (\<lambda>st3 _. (st3, Inr uuid))"
    using assms ne by (auto simp: registerUser_def getUsers_def list_ex_iff Let_def)
  show "users (fst (registerUser E now uuid (Some name) st))
           = Map_set uuid \<lparr>u_userId = uuid, u_username = name, u_lastActive = now\<rparr> (users st)"
    unfolding r by (simp add: andThen_same_state notifyAll_frame)
  show "snd (registerUser E now uuid (Some name) st) \<noteq> Inl nameConflictError
           \<or> buildError E ?jm = Some nameConflictError"
  proof (cases "buildError E ?jm")
    case None
    then have "notifyAll E ?jm ?st2 = (broadcastMessage E (Xml ''message'' ?jm) ?st2, Inr ())"
      by (intro notifyAll_ok) (simp_all add: createSystemMessage_def)
    then show ?thesis unfolding r by (simp add: andThen_pair)
  next
    case (Some e)
    then show ?thesis unfolding r by (simp add: notifyAll_fails andThen_pair)
  qed
qed

lemma createUser_conflict_iff:
  "createUser now uuid name userId' activeUsers = Inl nameInUseError
     \<longleftrightarrow> trim name \<noteq> []
         \<and> (\<exists>u \<in> set (Map_values activeUsers).
               toLowerCase (User_username u) = toLowerCase (trim name))"
  using errors_distinct(2)
  by (auto simp: createUser_def Let_def isUsernameTaken_def trim_idem list_ex_iff)

lemma Map_set_mem: "(k, v) \<in> set (Map_set k v m)"
  by (induction m) auto

lemma registerUser_variant_conflicts:
  assumes "trim name \<noteq> []"
    and "\<not> (\<exists>u \<in> set (getUsers st). toLowerCase (u_username u) = toLowerCase name)"
    and "toLowerCase name' = toLowerCase name" and "trim name' \<noteq> []"
  shows "registerUser E' now' uuid' (Some name') (fst (registerUser E now uuid (Some name) st))
           = (fst (registerUser E now uuid (Some name) st), Inl nameConflictError)"
proof -
  let ?st' = "fst (registerUser E now uuid (Some name) st)"
  have "(uuid, \<lparr>u_userId = uuid, u_username = name, u_lastActive = now\<rparr>) \<in> set (users ?st')"
    unfolding registerUser_stores(1) [OF assms(1,2)] by (rule Map_set_mem)
  then have "\<lparr>u_userId = uuid, u_username = name, u_lastActive = now\<rparr> \<in> set (getUsers ?st')"
    by (force simp: getUsers_def Map_values_def)
  then have "\<exists>u \<in> set (getUsers ?st'). toLowerCase (u_username u) = toLowerCase name'"
    using assms(3) by force
  with assms(4) show ?thesis by (rule registerUser_refuses)
qed

text \<open>
  Claim C1, at a failing input. \<open>Bob\<close> and \<open>Bob\<close> followed by a space are equal
  under the trimmed, case-insensitive comparison, yet \<open>registerUser\<close> accepts the second
  after the first and the registry then holds both; \<open>createUser\<close> of the user model
  rejects the second.
\<close>

theorem registerUser_accepts_untrimmed_duplicate:
  "toLowerCase (trim ''Bob '') = toLowerCase (trim ''Bob'')
   \<and> (case registerUser env0 ''t1'' ''id-1'' (Some ''Bob'') st0 of
        (st1, Inl e) \<Rightarrow> False
      | (st1, Inr i1) \<Rightarrow>
          (case registerUser env0 ''t2'' ''id-2'' (Some ''Bob '') st1 of
             (st2, Inl e) \<Rightarrow> False
           | (st2, Inr i2) \<Rightarrow>
               i2 = ''id-2'' \<and> map u_username (getUsers st2) = [''Bob'', ''Bob '']))
   \<and> (case createUser ''t1'' ''id-1'' ''Bob'' None [] of
        Inl e \<Rightarrow> False
      | Inr (activeUsers, u) \<Rightarrow>
          createUser ''t2'' ''id-2'' ''Bob '' None activeUsers = Inl nameInUseError)"
  by code_simp

end
